theory Spec2Isabelle
  imports Main "HOL-Library.Word"
begin

section \<open>JavaScript values, objects and Map\<close>

text \<open>
  The values that the identifiers \<open>clerkId\<close>, \<open>senderId\<close>, \<open>receiverId\<close>, \<open>content\<close> and
  \<open>activity\<close> hold at run time: a string taken from the wire, or \<open>undefined\<close> when the
  destructured field is absent. Identifiers are only compared (\<open>===\<close>, Map keys) and tested
  for truthiness, so their strings are kept as opaque \<open>string\<close>s.
\<close>

datatype jsval = JUndefined | JStr string

fun truthy :: "jsval \<Rightarrow> bool" where
  "truthy JUndefined = False"
| "truthy (JStr s) = (s \<noteq> [])"

text \<open>An object literal or a payload read field by field; an absent field reads \<open>undefined\<close>.\<close>

type_synonym obj = "(string \<times> jsval) list"

fun get_field :: "obj \<Rightarrow> string \<Rightarrow> jsval" where
  "get_field [] f = JUndefined"
| "get_field ((k, v) # rest) f = (if k = f then v else get_field rest f)"

text \<open>
  A JavaScript \<open>Map\<close>: entries in insertion order, at most one per key. \<open>set\<close> on a key that
  is present replaces the value in place, otherwise the entry is appended.
\<close>

type_synonym ('k, 'v) jsmap = "('k \<times> 'v) list"

fun jsmap_set :: "'k \<Rightarrow> 'v \<Rightarrow> ('k, 'v) jsmap \<Rightarrow> ('k, 'v) jsmap" where
  "jsmap_set k v [] = [(k, v)]"
| "jsmap_set k v ((k', v') # rest) =
     (if k' = k then (k, v) # rest else (k', v') # jsmap_set k v rest)"

fun jsmap_get :: "('k, 'v) jsmap \<Rightarrow> 'k \<Rightarrow> 'v option" where
  "jsmap_get [] k = None"
| "jsmap_get ((k', v') # rest) k = (if k' = k then Some v' else jsmap_get rest k)"

fun jsmap_delete :: "'k \<Rightarrow> ('k, 'v) jsmap \<Rightarrow> ('k, 'v) jsmap" where
  "jsmap_delete k [] = []"
| "jsmap_delete k ((k', v') # rest) =
     (if k' = k then jsmap_delete k rest else (k', v') # jsmap_delete k rest)"

definition jsmap_keys :: "('k, 'v) jsmap \<Rightarrow> 'k list" where
  "jsmap_keys m = map fst m"

text \<open>The well-formedness every JavaScript \<open>Map\<close> has: no key occurs twice.\<close>

definition jsmap_wf :: "('k, 'v) jsmap \<Rightarrow> bool" where
  "jsmap_wf m = distinct (jsmap_keys m)"

section \<open>The server: \<open>backend/src/lib/socket.js\<close>\<close>

text \<open>
  \<open>socket.id\<close> is the identifier socket.io generates for a connection: a string that is never
  empty. The type holds exactly the non-empty strings (first character and rest).
\<close>

datatype socket_id = SocketId char string

fun socket_id_string :: "socket_id \<Rightarrow> string" where
  "socket_id_string (SocketId c cs) = c # cs"

text \<open>The test \<open>if (receiverSocketId)\<close> on the result of \<open>userSockets.get\<close>.\<close>

fun truthy_socket_id :: "socket_id option \<Rightarrow> bool" where
  "truthy_socket_id None = False"
| "truthy_socket_id (Some sid) = truthy (JStr (socket_id_string sid))"

text \<open>
  Modelled from the spec: the \<open>Message\<close> document that \<open>Message.create\<close> returns and the
  client's \<open>Message\<close> and \<open>User\<close> types (\<open>models/message.model.js\<close> and \<open>@/types\<close> are not
  among the sources). The fields are those of the data model; the code reads only
  \<open>senderId\<close>, \<open>receiverId\<close> and \<open>clerkId\<close>.
\<close>

record message =
  message_id :: string
  senderId :: string
  receiverId :: string
  content :: string
  createdAt :: string

record user =
  clerkId :: string

text \<open>What \<open>error.message\<close> is in the catch branch of the \<open>send_message\<close> handler.\<close>

datatype error_message =
    Destructure_TypeError
  | Store_error jsval

text \<open>The named events of the protocol, server to client, with their payloads.\<close>

datatype event =
    Users_online "jsval list"
  | Activity_updated obj
  | Receive_message message
  | Message_error error_message
  | User_disconnected jsval
  | User_connected jsval
  | Activities "(jsval \<times> jsval) list"

text \<open>
  The three ways the server emits: \<open>io.emit\<close> (every connected socket),
  \<open>io.to(id).emit\<close> (the room of one socket id) and \<open>socket.emit\<close> (the socket whose
  handler is running).
\<close>

datatype emit =
    Io_emit event
  | Io_to_emit socket_id event
  | Socket_emit socket_id event

fun emitted_event :: "emit \<Rightarrow> event" where
  "emitted_event (Io_emit e) = e"
| "emitted_event (Io_to_emit sid e) = e"
| "emitted_event (Socket_emit sid e) = e"

fun recipients :: "socket_id list \<Rightarrow> emit \<Rightarrow> socket_id list" where
  "recipients connected (Io_emit e) = connected"
| "recipients connected (Io_to_emit sid e) = filter (\<lambda>c. c = sid) connected"
| "recipients connected (Socket_emit sid e) = [sid]"

fun is_users_online :: "event \<Rightarrow> bool" where
  "is_users_online (Users_online ks) = True"
| "is_users_online _ = False"

fun is_activity_updated :: "event \<Rightarrow> bool" where
  "is_activity_updated (Activity_updated p) = True"
| "is_activity_updated _ = False"

fun is_receive_message :: "event \<Rightarrow> bool" where
  "is_receive_message (Receive_message m) = True"
| "is_receive_message _ = False"

fun is_message_error :: "event \<Rightarrow> bool" where
  "is_message_error (Message_error e) = True"
| "is_message_error _ = False"

fun is_broadcast :: "emit \<Rightarrow> bool" where
  "is_broadcast (Io_emit e) = True"
| "is_broadcast _ = False"

text \<open>
  A \<open>send_message\<close> handler suspended at \<open>await Message.create(...)\<close>: the variables its
  continuation still reads (\<open>socket\<close>, \<open>senderId\<close>, \<open>receiverId\<close>) and the \<open>content\<close> handed to
  the store.
\<close>

record send_request =
  req_socket :: socket_id
  req_senderId :: jsval
  req_receiverId :: jsval
  req_content :: jsval

text \<open>
  The state closed over by \<open>initializeSocket\<close>: the two Maps, and the handlers that wait for
  the store.
\<close>

record server_state =
  userSockets :: "(jsval, socket_id) jsmap"
  userActivities :: "(jsval, jsval) jsmap"
  pending :: "send_request list"

definition init_state :: server_state where
  "init_state = \<lparr>userSockets = [], userActivities = [], pending = []\<rparr>"

text \<open>Handler 1, \<open>user_connected\<close>.\<close>

definition user_connected :: "socket_id \<Rightarrow> jsval \<Rightarrow> server_state \<Rightarrow> server_state \<times> emit list" where
  "user_connected sock clerk s =
     (let s1 = s\<lparr>userSockets := jsmap_set clerk sock (userSockets s)\<rparr>;
          s2 = s1\<lparr>userActivities := jsmap_set clerk (JStr ''Online'') (userActivities s1)\<rparr>
      in (s2, [Io_emit (Users_online (jsmap_keys (userSockets s2)))]))"

text \<open>
  Handler 2, \<open>update_activity\<close>. Its parameter is the pattern \<open>{ clerkId, activity }\<close>: a payload
  that is \<open>null\<close> or \<open>undefined\<close> (\<open>None\<close>) makes the destructuring throw, and nothing in the
  handler catches it.
\<close>

datatype fault = Uncaught_TypeError | No_such_pending

definition update_activity ::
  "socket_id \<Rightarrow> obj option \<Rightarrow> server_state \<Rightarrow> fault + server_state \<times> emit list" where
  "update_activity sock payload s =
     (case payload of
        None \<Rightarrow> Inl Uncaught_TypeError
      | Some p \<Rightarrow>
          (let clerk = get_field p ''clerkId'';
               activity = get_field p ''activity''
           in Inr (s\<lparr>userActivities := jsmap_set clerk activity (userActivities s)\<rparr>,
                   [Io_emit (Activity_updated [(''clerkId'', clerk), (''activity'', activity)])])))"

text \<open>
  Handler 3, \<open>send_message\<close>, up to the \<open>await\<close>: the destructuring of \<open>data\<close> is inside the
  \<open>try\<close>, so a \<open>null\<close> or \<open>undefined\<close> payload reaches the catch branch at once; otherwise
  \<open>Message.create\<close> is called and the handler is suspended.
\<close>

definition send_message_begin :: "socket_id \<Rightarrow> obj option \<Rightarrow> emit list \<times> send_request option" where
  "send_message_begin sock data =
     (case data of
        None \<Rightarrow> ([Socket_emit sock (Message_error Destructure_TypeError)], None)
      | Some d \<Rightarrow>
          ([], Some \<lparr>req_socket = sock,
                     req_senderId = get_field d ''senderId'',
                     req_receiverId = get_field d ''receiverId'',
                     req_content = get_field d ''content''\<rparr>))"

text \<open>
  Handler 3 after the \<open>await\<close>: \<open>Inl err\<close> is a rejected \<open>Message.create\<close> (\<open>err\<close> is
  \<open>error.message\<close>), \<open>Inr message\<close> the created document. The registry is read now, not when
  the request arrived.
\<close>

definition send_message_resume ::
  "send_request \<Rightarrow> jsval + message \<Rightarrow> server_state \<Rightarrow> emit list" where
  "send_message_resume r outcome s =
     (case outcome of
        Inl err \<Rightarrow> [Socket_emit (req_socket r) (Message_error (Store_error err))]
      | Inr message \<Rightarrow>
          (let receiverSocketId = jsmap_get (userSockets s) (req_receiverId r);
               to_receiver =
                 (case receiverSocketId of
                    None \<Rightarrow> []
                  | Some sid \<Rightarrow>
                      if truthy_socket_id receiverSocketId
                      then [Io_to_emit sid (Receive_message message)] else []);
               senderSocketId = jsmap_get (userSockets s) (req_senderId r);
               to_sender =
                 (case senderSocketId of
                    None \<Rightarrow> []
                  | Some sid \<Rightarrow>
                      if truthy_socket_id senderSocketId
                      then [Io_to_emit sid (Receive_message message)] else [])
           in to_receiver @ to_sender))"

text \<open>
  Everything one \<open>send_message\<close> request makes the server emit, given how the store call
  settles and the state at that moment.
\<close>

definition send_message ::
  "socket_id \<Rightarrow> obj option \<Rightarrow> jsval + message \<Rightarrow> server_state \<Rightarrow> emit list" where
  "send_message sock data outcome s =
     (case send_message_begin sock data of
        (es, None) \<Rightarrow> es
      | (es, Some r) \<Rightarrow> es @ send_message_resume r outcome s)"

text \<open>
  Handler 4, \<open>disconnect\<close>. The loop visits the entries in insertion order and stops at the
  first whose socket id is this socket's.
\<close>

fun disconnect_scan ::
  "socket_id \<Rightarrow> (jsval, socket_id) jsmap \<Rightarrow> server_state \<Rightarrow> jsval \<times> server_state" where
  "disconnect_scan sock [] s = (JUndefined, s)"
| "disconnect_scan sock ((userId, socketId) # rest) s =
     (if socketId = sock
      then (userId, s\<lparr>userSockets := jsmap_delete userId (userSockets s),
                      userActivities := jsmap_delete userId (userActivities s)\<rparr>)
      else disconnect_scan sock rest s)"

definition disconnect :: "socket_id \<Rightarrow> server_state \<Rightarrow> server_state \<times> emit list" where
  "disconnect sock s =
     (case disconnect_scan sock (userSockets s) s of
        (disconnectedUserId, s') \<Rightarrow>
          (s', if truthy disconnectedUserId
               then [Io_emit (User_disconnected disconnectedUserId),
                     Io_emit (Users_online (jsmap_keys (userSockets s')))]
               else []))"

subsection \<open>The event loop\<close>

text \<open>
  The handler invocations in the order the event loop runs them. \<open>Store_settled i outcome\<close>
  resumes the \<open>i\<close>-th suspended \<open>send_message\<close> handler.
\<close>

datatype input =
    On_user_connected socket_id jsval
  | On_update_activity socket_id "obj option"
  | On_send_message socket_id "obj option"
  | Store_settled nat "jsval + message"
  | On_disconnect socket_id

text \<open>The \<open>i\<close>-th suspended handler, and the ones that stay suspended.\<close>

fun take_pending :: "nat \<Rightarrow> send_request list \<Rightarrow> (send_request \<times> send_request list) option" where
  "take_pending i [] = None"
| "take_pending i (r # rs) =
     (case i of
        0 \<Rightarrow> Some (r, rs)
      | Suc j \<Rightarrow>
          (case take_pending j rs of
             None \<Rightarrow> None
           | Some (q, rest) \<Rightarrow> Some (q, r # rest)))"

fun step :: "input \<Rightarrow> server_state \<Rightarrow> fault + server_state \<times> emit list" where
  "step (On_user_connected sock clerk) s = Inr (user_connected sock clerk s)"
| "step (On_update_activity sock payload) s = update_activity sock payload s"
| "step (On_send_message sock data) s =
     (case send_message_begin sock data of
        (es, None) \<Rightarrow> Inr (s, es)
      | (es, Some r) \<Rightarrow> Inr (s\<lparr>pending := pending s @ [r]\<rparr>, es))"
| "step (Store_settled i outcome) s =
     (case take_pending i (pending s) of
        None \<Rightarrow> Inl No_such_pending
      | Some (r, rest) \<Rightarrow> Inr (s\<lparr>pending := rest\<rparr>, send_message_resume r outcome s))"
| "step (On_disconnect sock) s = Inr (disconnect sock s)"

text \<open>A run keeps, for every handler invocation, what it emitted.\<close>

fun run ::
  "input list \<Rightarrow> server_state \<Rightarrow> fault + server_state \<times> (input \<times> emit list) list" where
  "run [] s = Inr (s, [])"
| "run (i # ins) s =
     (case step i s of
        Inl f \<Rightarrow> Inl f
      | Inr (s', es) \<Rightarrow>
          (case run ins s' of
             Inl f \<Rightarrow> Inl f
           | Inr (s'', tr) \<Rightarrow> Inr (s'', (i, es) # tr)))"

section \<open>The client: \<open>frontend/src/stores/useChatStore.ts\<close>\<close>

text \<open>
  The \<open>content\<close> argument of \<open>sendMessage\<close> is inspected character by character
  (\<open>content.trim()\<close>), so it is a JavaScript string as it is: a sequence of UTF-16 code units.
\<close>

type_synonym jsstring = "16 word list"

text \<open>
  What \<open>String.prototype.trim\<close> strips: the white space and line terminator code points of
  ECMAScript (TAB, LF, VT, FF, CR, SP, NBSP, the space separators U+1680, U+2000 to U+200A,
  U+202F, U+205F, U+3000, the separators U+2028 and U+2029, and U+FEFF).
\<close>

definition is_js_whitespace :: "16 word \<Rightarrow> bool" where
  "is_js_whitespace c =
     ((0x0009 \<le> c \<and> c \<le> 0x000D) \<or> c = 0x0020 \<or> c = 0x00A0 \<or> c = 0x1680
      \<or> (0x2000 \<le> c \<and> c \<le> 0x200A) \<or> c = 0x2028 \<or> c = 0x2029 \<or> c = 0x202F
      \<or> c = 0x205F \<or> c = 0x3000 \<or> c = 0xFEFF)"

definition js_trim :: "jsstring \<Rightarrow> jsstring" where
  "js_trim s = rev (dropWhile is_js_whitespace (rev (dropWhile is_js_whitespace s)))"

text \<open>The module's socket object, as far as the store tests it (\<open>!socket\<close>).\<close>

datatype client_socket = Client_socket

record chat_store =
  users :: "user list"
  isLoading :: bool
  error :: "string option"
  socket :: "client_socket option"
  isConnected :: bool
  onlineUsers :: "jsval set"
  userActivities :: "(jsval, jsval) jsmap"
  messages :: "message list"
  selectedUser :: "user option"

text \<open>What the client emits on its socket.\<close>

datatype client_emit =
    Emit_user_connected string
  | Emit_send_message string string jsstring

text \<open>The store as \<open>create\<close> builds it.\<close>

definition initial_store :: chat_store where
  "initial_store =
     \<lparr>users = [], isLoading = False, error = None, socket = Some Client_socket,
      isConnected = False, onlineUsers = {}, userActivities = [], messages = [],
      selectedUser = None\<rparr>"

definition setSelectedUser :: "user option \<Rightarrow> chat_store \<Rightarrow> chat_store" where
  "setSelectedUser u c = c\<lparr>selectedUser := u, messages := []\<rparr>"

text \<open>
  The listeners that \<open>initSocket(userId)\<close> registers; \<open>userId\<close> is the variable they close
  over.
\<close>

definition on_users_online :: "jsval list \<Rightarrow> chat_store \<Rightarrow> chat_store" where
  "on_users_online us c = c\<lparr>onlineUsers := set us\<rparr>"

text \<open>\<open>selectedUser?.clerkId\<close>: \<open>None\<close> is \<open>undefined\<close>, which no string equals.\<close>

definition on_receive_message :: "string \<Rightarrow> message \<Rightarrow> chat_store \<Rightarrow> chat_store" where
  "on_receive_message userId message c =
     (let selected = chat_store.selectedUser c;
          currentUserId = userId;
          isFromSelectedUser = (Some (senderId message) = map_option clerkId selected);
          isToSelectedUser = (Some (receiverId message) = map_option clerkId selected)
      in if (isFromSelectedUser \<and> receiverId message = currentUserId)
            \<or> (isToSelectedUser \<and> senderId message = currentUserId)
         then c\<lparr>messages := messages c @ [message]\<rparr>
         else c)"

definition on_activities :: "(jsval \<times> jsval) list \<Rightarrow> chat_store \<Rightarrow> chat_store" where
  "on_activities activities c =
     c\<lparr>chat_store.userActivities := fold (\<lambda>(k, v). jsmap_set k v) activities []\<rparr>"

definition on_user_connected :: "jsval \<Rightarrow> chat_store \<Rightarrow> chat_store" where
  "on_user_connected u c = c\<lparr>onlineUsers := insert u (onlineUsers c)\<rparr>"

definition on_user_disconnected :: "jsval \<Rightarrow> chat_store \<Rightarrow> chat_store" where
  "on_user_disconnected u c = c\<lparr>onlineUsers := onlineUsers c - {u}\<rparr>"

text \<open>The parameter pattern is \<open>{ userId: updatedUserId, activity }\<close>.\<close>

definition on_activity_updated :: "obj \<Rightarrow> chat_store \<Rightarrow> chat_store" where
  "on_activity_updated payload c =
     (let updatedUserId = get_field payload ''userId'';
          activity = get_field payload ''activity''
      in c\<lparr>chat_store.userActivities :=
             jsmap_set updatedUserId activity (chat_store.userActivities c)\<rparr>)"

text \<open>An event that arrives at a client runs the listener of its name, if there is one.\<close>

fun client_on :: "string \<Rightarrow> event \<Rightarrow> chat_store \<Rightarrow> chat_store" where
  "client_on userId (Users_online us) c = on_users_online us c"
| "client_on userId (Receive_message m) c = on_receive_message userId m c"
| "client_on userId (Activities as) c = on_activities as c"
| "client_on userId (User_connected u) c = on_user_connected u c"
| "client_on userId (User_disconnected u) c = on_user_disconnected u c"
| "client_on userId (Activity_updated p) c = on_activity_updated p c"
| "client_on userId (Message_error e) c = c"

definition sendMessage ::
  "string \<Rightarrow> string \<Rightarrow> jsstring \<Rightarrow> chat_store \<Rightarrow> chat_store \<times> client_emit list" where
  "sendMessage receiver sender text c =
     (if socket c = None \<or> js_trim text = [] then (c, [])
      else (c, [Emit_send_message receiver sender text]))"

section \<open>Example values\<close>

text \<open>Names for the concrete sockets, users, payloads and states the examples use.\<close>

abbreviation sock_a1 :: socket_id where "sock_a1 \<equiv> SocketId CHR ''a'' ''1''"
abbreviation sock_a2 :: socket_id where "sock_a2 \<equiv> SocketId CHR ''a'' ''2''"
abbreviation sock_b1 :: socket_id where "sock_b1 \<equiv> SocketId CHR ''b'' ''1''"
abbreviation sock_z9 :: socket_id where "sock_z9 \<equiv> SocketId CHR ''z'' ''9''"

abbreviation alice :: jsval where "alice \<equiv> JStr ''alice''"
abbreviation bob :: jsval where "bob \<equiv> JStr ''bob''"
abbreviation carol :: jsval where "carol \<equiv> JStr ''carol''"

abbreviation only_bob :: server_state where
  "only_bob \<equiv> \<lparr>userSockets = [(bob, sock_b1)], userActivities = [(bob, JStr ''Online'')],
                pending = []\<rparr>"

abbreviation alice_on_a1 :: server_state where
  "alice_on_a1 \<equiv> \<lparr>userSockets = [(alice, sock_a1)],
                   userActivities = [(alice, JStr ''Online'')], pending = []\<rparr>"

abbreviation alice_on_a2 :: server_state where
  "alice_on_a2 \<equiv> \<lparr>userSockets = [(alice, sock_a2)],
                   userActivities = [(alice, JStr ''Online'')], pending = []\<rparr>"

abbreviation hi_request :: obj where
  "hi_request \<equiv> [(''senderId'', alice), (''receiverId'', bob), (''content'', JStr ''hi'')]"

abbreviation hi_message :: message where
  "hi_message \<equiv> \<lparr>message_id = ''m1'', senderId = ''alice'', receiverId = ''bob'',
                  content = ''hi'', createdAt = ''t0''\<rparr>"

section \<open>The specification's wording, for comparison with the code\<close>

text \<open>
  The mirror's filter as the specification words it: the message's sender and receiver are
  the two ends of the selected conversation (the local user and the selected user), and the
  local user is one of them. With no user selected there is no conversation to match.
\<close>

definition spec_matches_conversation :: "string \<Rightarrow> user option \<Rightarrow> message \<Rightarrow> bool" where
  "spec_matches_conversation localId selected m =
     (case selected of
        None \<Rightarrow> False
      | Some u \<Rightarrow>
          {senderId m, receiverId m} = {clerkId u, localId}
          \<and> localId \<in> {senderId m, receiverId m})"

section \<open>Facts about the Map model\<close>

lemma set_keys_jsmap_set: "set (jsmap_keys (jsmap_set k v m)) = insert k (set (jsmap_keys m))"
  by (induction k v m rule: jsmap_set.induct) (simp_all add: jsmap_keys_def insert_commute)

lemma set_keys_jsmap_delete: "set (jsmap_keys (jsmap_delete k m)) = set (jsmap_keys m) - {k}"
  by (induction k m rule: jsmap_delete.induct) (simp_all add: jsmap_keys_def insert_Diff_if)

lemma jsmap_wf_set: "jsmap_wf m \<Longrightarrow> jsmap_wf (jsmap_set k v m)"
  unfolding jsmap_wf_def
proof (induction m)
  case Nil
  then show ?case by (simp add: jsmap_keys_def)
next
  case (Cons e m)
  obtain k' v' where e: "e = (k', v')" by (cases e)
  have keys: "set (jsmap_keys (jsmap_set k v m)) = insert k (set (jsmap_keys m))"
    by (rule set_keys_jsmap_set)
  from Cons e keys show ?case
    by (auto simp: jsmap_keys_def)
qed

lemma jsmap_wf_delete: "jsmap_wf m \<Longrightarrow> jsmap_wf (jsmap_delete k m)"
  unfolding jsmap_wf_def
proof (induction m)
  case Nil
  then show ?case by (simp add: jsmap_keys_def)
next
  case (Cons e m)
  obtain k' v' where e: "e = (k', v')" by (cases e)
  have keys: "set (jsmap_keys (jsmap_delete k m)) = set (jsmap_keys m) - {k}"
    by (rule set_keys_jsmap_delete)
  from Cons e keys show ?case
    by (auto simp: jsmap_keys_def)
qed

lemma jsmap_get_set_same: "jsmap_get (jsmap_set k v m) k = Some v"
  by (induction m) auto

lemma count_keys_absent: "k \<notin> set (jsmap_keys m) \<Longrightarrow> count_list (jsmap_keys m) k = 0"
  by (induction m) (auto simp: jsmap_keys_def)

lemma count_keys_jsmap_set:
  "jsmap_wf m \<Longrightarrow> count_list (jsmap_keys (jsmap_set k v m)) k = 1"
  unfolding jsmap_wf_def
proof (induction m)
  case Nil
  then show ?case by (simp add: jsmap_keys_def)
next
  case (Cons e m)
  obtain k' v' where e: "e = (k', v')" by (cases e)
  show ?case
  proof (cases "k' = k")
    case True
    with Cons.prems e have "k \<notin> set (jsmap_keys m)" by (simp add: jsmap_keys_def)
    then have "count_list (jsmap_keys m) k = 0" by (rule count_keys_absent)
    with True e show ?thesis by (simp add: jsmap_keys_def)
  next
    case False
    with Cons e show ?thesis by (simp add: jsmap_keys_def)
  qed
qed

lemma entries_eq_count:
  "length (filter (\<lambda>e. fst e = k) m) = count_list (jsmap_keys m) k"
  by (induction m) (auto simp: jsmap_keys_def)

text \<open>A socket id is never the empty string, so a registered id always passes the test.\<close>

lemma socket_id_string_nonempty: "socket_id_string c \<noteq> []"
  by (cases c) simp

lemma truthy_socket_id_Some: "truthy_socket_id (Some c)"
  by (simp add: socket_id_string_nonempty)

section \<open>Registration\<close>

text \<open>
  C5. Registering the same user twice in succession, on any two sockets, leaves exactly one
  registry entry for that user (the second socket), and the \<open>users_online\<close> list broadcast
  after the second registration holds the user exactly once.
\<close>

theorem register_twice_single_entry:
  assumes "jsmap_wf (userSockets s)"
  shows "case user_connected c2 u (fst (user_connected c1 u s)) of
           (s2, es) \<Rightarrow>
             length (filter (\<lambda>e. fst e = u) (userSockets s2)) = 1
             \<and> jsmap_get (userSockets s2) u = Some c2
             \<and> es = [Io_emit (Users_online (jsmap_keys (userSockets s2)))]
             \<and> count_list (jsmap_keys (userSockets s2)) u = 1"
proof -
  let ?m1 = "jsmap_set u c1 (userSockets s)"
  have wf1: "jsmap_wf ?m1" using assms by (rule jsmap_wf_set)
  have cnt: "count_list (jsmap_keys (jsmap_set u c2 ?m1)) u = 1"
    using wf1 by (rule count_keys_jsmap_set)
  have len: "length (filter (\<lambda>e. fst e = u) (jsmap_set u c2 ?m1)) = 1"
    using cnt by (simp add: entries_eq_count)
  show ?thesis
    using cnt len by (simp add: user_connected_def Let_def jsmap_get_set_same)
qed

text \<open>
  The theorem at a registry that already holds \<open>bob\<close>: \<open>alice\<close> registers on socket \<open>a1\<close>,
  then on \<open>a2\<close>; the broadcast list is \<open>[bob, alice]\<close>.
\<close>

theorem register_twice_single_entry_witness:
  "jsmap_wf (userSockets only_bob)
   \<and> (case user_connected sock_a2 alice (fst (user_connected sock_a1 alice only_bob)) of
         (s2, es) \<Rightarrow>
           length (filter (\<lambda>e. fst e = alice) (userSockets s2)) = 1
           \<and> jsmap_get (userSockets s2) alice = Some sock_a2
           \<and> es = [Io_emit (Users_online (jsmap_keys (userSockets s2)))]
           \<and> count_list (jsmap_keys (userSockets s2)) alice = 1)
   \<and> snd (user_connected sock_a2 alice (fst (user_connected sock_a1 alice only_bob)))
       = [Io_emit (Users_online [bob, alice])]"
proof -
  have wf: "jsmap_wf (userSockets only_bob)"
    by (simp add: jsmap_wf_def jsmap_keys_def)
  have out: "snd (user_connected sock_a2 alice (fst (user_connected sock_a1 alice only_bob)))
       = [Io_emit (Users_online [bob, alice])]"
    by (simp add: user_connected_def Let_def jsmap_keys_def)
  from wf register_twice_single_entry [OF wf] out show ?thesis by (intro conjI)
qed

section \<open>Disconnection\<close>

lemma disconnect_scan_absent:
  "sock \<notin> snd ` set m \<Longrightarrow> disconnect_scan sock m s = (JUndefined, s)"
  by (induction sock m s rule: disconnect_scan.induct) auto

lemma disconnect_scan_result:
  "disconnect_scan sock m s = (u, s') \<Longrightarrow>
     s' = s \<or> s' = s\<lparr>userSockets := jsmap_delete u (userSockets s),
                     server_state.userActivities :=
                       jsmap_delete u (server_state.userActivities s)\<rparr>"
  by (induction sock m s rule: disconnect_scan.induct) (auto split: if_splits)

lemma disconnect_emits:
  "snd (disconnect sock s) = [] \<or>
   (\<exists>u ks. snd (disconnect sock s) = [Io_emit (User_disconnected u), Io_emit (Users_online ks)])"
  by (auto simp: disconnect_def split: prod.splits)

text \<open>
  C6. The disconnect cleanup for a connection id that is not a value of the registry is a
  no-op: the whole server state (registry and activities) is unchanged and nothing is
  emitted, so neither \<open>user_disconnected\<close> nor \<open>users_online\<close>.
\<close>

theorem disconnect_unknown_noop:
  assumes "sock \<notin> snd ` set (userSockets s)"
  shows "disconnect sock s = (s, [])"
  using disconnect_scan_absent [OF assms] by (simp add: disconnect_def)

text \<open>The theorem at a registry that holds only \<open>bob\<close> on \<open>b1\<close>, for the socket \<open>z9\<close>.\<close>

theorem disconnect_unknown_noop_witness:
  "sock_z9 \<notin> snd ` set (userSockets only_bob) \<and> disconnect sock_z9 only_bob = (only_bob, [])"
proof -
  have absent: "sock_z9 \<notin> snd ` set (userSockets only_bob)"
    by simp
  from absent disconnect_unknown_noop [OF absent] show ?thesis by (rule conjI)
qed

section \<open>Message relay\<close>

lemma take_pending_last: "take_pending (length rs) (rs @ [r]) = Some (r, rs)"
  by (induction rs) simp_all

lemma send_message_resume_pending:
  "send_message_resume r outcome (s\<lparr>pending := p\<rparr>) = send_message_resume r outcome s"
  by (cases outcome) (simp_all add: send_message_resume_def)

text \<open>
  \<open>send_message\<close> is what the two invocations of the handler emit when the store call
  settles before any other handler runs; the state is then the one the request found.
\<close>

lemma send_message_is_begin_then_resume:
  assumes "step (On_send_message sock (Some d)) s = Inr (s1, es1)"
    and "step (Store_settled (length (pending s)) outcome) s1 = Inr (s2, es2)"
  shows "es1 @ es2 = send_message sock (Some d) outcome s \<and> s2 = s"
proof -
  obtain r where r: "send_message_begin sock (Some d) = ([], Some r)"
    by (simp add: send_message_begin_def)
  from assms(1) r have s1: "s1 = s\<lparr>pending := pending s @ [r]\<rparr>" and es1: "es1 = []"
    by simp_all
  from assms(2) s1 have s2: "s2 = s" and es2: "es2 = send_message_resume r outcome s"
    by (auto simp: take_pending_last send_message_resume_pending)
  from r es1 es2 s2 show ?thesis by (simp add: send_message_def)
qed

text \<open>
  C4. A \<open>send_message\<close> request from \<open>A\<close> to \<open>B\<close>, with \<open>A\<close> registered on connection \<open>c\<close>
  and \<open>B\<close> not registered when the store call succeeds with message \<open>m\<close>: the server emits
  exactly one event, \<open>receive_message(m)\<close> to \<open>c\<close>, and no \<open>message_error\<close>.
\<close>

theorem send_offline_receiver:
  assumes "jsmap_get (userSockets s) (get_field d ''senderId'') = Some c"
    and "jsmap_get (userSockets s) (get_field d ''receiverId'') = None"
  shows "send_message sock (Some d) (Inr m) s = [Io_to_emit c (Receive_message m)]
     \<and> set (recipients connected (Io_to_emit c (Receive_message m))) \<subseteq> {c}"
  using assms
  by (auto simp: send_message_def send_message_begin_def send_message_resume_def Let_def
        socket_id_string_nonempty)

text \<open>The theorem for \<open>alice\<close> on \<open>a1\<close> writing to \<open>bob\<close>, who is not registered.\<close>

theorem send_offline_receiver_witness:
  "jsmap_get (userSockets alice_on_a1) (get_field hi_request ''senderId'') = Some sock_a1
   \<and> jsmap_get (userSockets alice_on_a1) (get_field hi_request ''receiverId'') = None
   \<and> send_message sock_a1 (Some hi_request) (Inr hi_message) alice_on_a1
       = [Io_to_emit sock_a1 (Receive_message hi_message)]
   \<and> set (recipients [sock_a1, sock_b1] (Io_to_emit sock_a1 (Receive_message hi_message)))
       \<subseteq> {sock_a1}"
proof -
  have a: "jsmap_get (userSockets alice_on_a1) (get_field hi_request ''senderId'') = Some sock_a1"
    by simp
  have b: "jsmap_get (userSockets alice_on_a1) (get_field hi_request ''receiverId'') = None"
    by simp
  from a b send_offline_receiver [OF a b, of sock_a1 hi_message "[sock_a1, sock_b1]"]
  show ?thesis by blast
qed

text \<open>
  C2, as stated, fails. \<open>alice\<close> is registered on \<open>a2\<close>; a request with \<open>senderId = alice\<close>
  arrives on socket \<open>a1\<close> and the store call fails. The one \<open>message_error\<close> goes to \<open>a1\<close>,
  the socket of the request, and not to \<open>a2\<close>, the sender's registered connection.
\<close>

theorem send_store_failure_counterexample:
  "send_message sock_a1 (Some hi_request) (Inl (JStr ''store down'')) alice_on_a2
     = [Socket_emit sock_a1 (Message_error (Store_error (JStr ''store down'')))]
   \<and> jsmap_get (userSockets alice_on_a2) (get_field hi_request ''senderId'') = Some sock_a2
   \<and> recipients [sock_a1, sock_a2]
        (Socket_emit sock_a1 (Message_error (Store_error (JStr ''store down''))))
       \<noteq> [sock_a2]"
  by (simp add: send_message_def send_message_begin_def send_message_resume_def)

text \<open>
  C2, amended. When the store call of a \<open>send_message\<close> request fails, the server emits
  exactly one event: \<open>message_error\<close>, by \<open>socket.emit\<close>, to the socket the request arrived on
  and to no other, whatever the registry holds. So there is no \<open>receive_message\<close> and no
  broadcast.
\<close>

theorem send_store_failure:
  "send_message sock (Some d) (Inl err) s = [Socket_emit sock (Message_error (Store_error err))]
   \<and> recipients connected (Socket_emit sock (Message_error (Store_error err))) = [sock]
   \<and> filter (\<lambda>e. is_receive_message (emitted_event e)) (send_message sock (Some d) (Inl err) s) = []
   \<and> filter is_broadcast (send_message sock (Some d) (Inl err) s) = []
   \<and> length (filter (\<lambda>e. is_message_error (emitted_event e))
               (send_message sock (Some d) (Inl err) s)) = 1"
  by (simp add: send_message_def send_message_begin_def send_message_resume_def)

text \<open>The amended statement for the request of the counterexample.\<close>

theorem send_store_failure_witness:
  "send_message sock_a1 (Some hi_request) (Inl (JStr ''store down'')) alice_on_a2
     = [Socket_emit sock_a1 (Message_error (Store_error (JStr ''store down'')))]
   \<and> recipients [sock_a1, sock_a2]
        (Socket_emit sock_a1 (Message_error (Store_error (JStr ''store down'')))) = [sock_a1]"
  using send_store_failure [of sock_a1 hi_request "JStr ''store down''" alice_on_a2
      "[sock_a1, sock_a2]"]
  by blast

lemma step_receive_message_only_on_settle:
  assumes "step i s = Inr (s', es)" and "e \<in> set es"
    and "emitted_event e = Receive_message m"
  shows "\<exists>k. i = Store_settled k (Inr m)"
proof (cases i)
  case (On_user_connected sock clerk)
  with assms show ?thesis by (auto simp: user_connected_def Let_def)
next
  case (On_update_activity sock payload)
  with assms show ?thesis by (auto simp: update_activity_def Let_def split: option.splits)
next
  case (On_send_message sock data)
  with assms show ?thesis by (auto simp: send_message_begin_def split: option.splits)
next
  case (Store_settled k outcome)
  with assms show ?thesis
    by (auto simp: send_message_resume_def Let_def
             split: option.splits sum.splits if_splits prod.splits)
next
  case (On_disconnect sock)
  with assms show ?thesis
    by (auto simp: disconnect_def split: prod.splits if_splits)
qed

text \<open>
  C3. In a run of the server from any state, a handler invocation that emits
  \<open>receive_message(m)\<close> to any connection is the resumption of a \<open>send_message\<close> handler whose
  store call has just resolved successfully with \<open>m\<close>. The invocation that receives the
  request emits no \<open>receive_message\<close>, and neither does any other handler that runs while the
  store call is pending.
\<close>

theorem delivery_only_after_store_success:
  assumes "run ins s0 = Inr (s, tr)" and "(i, es) \<in> set tr" and "e \<in> set es"
    and "emitted_event e = Receive_message m"
  shows "\<exists>k. i = Store_settled k (Inr m)"
  using assms
proof (induction ins arbitrary: s0 s tr)
  case Nil
  then show ?case by simp
next
  case (Cons j ins)
  from Cons.prems(1) obtain s1 es1 tr1 where
    st: "step j s0 = Inr (s1, es1)" and rn: "run ins s1 = Inr (s, tr1)"
    and tr: "tr = (j, es1) # tr1"
    by (auto split: sum.splits prod.splits)
  from Cons.prems(2) tr consider "(i, es) = (j, es1)" | "(i, es) \<in> set tr1" by auto
  then show ?case
  proof cases
    case 1
    with st Cons.prems(3,4) show ?thesis
      by (auto dest: step_receive_message_only_on_settle)
  next
    case 2
    from Cons.IH [OF rn 2 Cons.prems(3,4)] show ?thesis .
  qed
qed

text \<open>
  The theorem on the run: \<open>alice\<close> connects on \<open>a1\<close>, sends to \<open>bob\<close>, the store call
  succeeds. The request's own invocation emits nothing; the delivery is in the third entry.
\<close>

theorem delivery_only_after_store_success_witness:
  "run [On_user_connected sock_a1 alice, On_send_message sock_a1 (Some hi_request),
        Store_settled 0 (Inr hi_message)] init_state
     = Inr (alice_on_a1,
            [(On_user_connected sock_a1 alice, [Io_emit (Users_online [alice])]),
             (On_send_message sock_a1 (Some hi_request), []),
             (Store_settled 0 (Inr hi_message),
                [Io_to_emit sock_a1 (Receive_message hi_message)])])
   \<and> (\<exists>k. Store_settled 0 (Inr hi_message) = Store_settled k (Inr hi_message))"
proof -
  have r: "run [On_user_connected sock_a1 alice, On_send_message sock_a1 (Some hi_request),
        Store_settled 0 (Inr hi_message)] init_state
     = Inr (alice_on_a1,
            [(On_user_connected sock_a1 alice, [Io_emit (Users_online [alice])]),
             (On_send_message sock_a1 (Some hi_request), []),
             (Store_settled 0 (Inr hi_message),
                [Io_to_emit sock_a1 (Receive_message hi_message)])])"
    by (simp add: init_state_def user_connected_def send_message_begin_def
          send_message_resume_def Let_def jsmap_keys_def)
  have i: "(Store_settled 0 (Inr hi_message), [Io_to_emit sock_a1 (Receive_message hi_message)])
      \<in> set [(On_user_connected sock_a1 alice, [Io_emit (Users_online [alice])]),
             (On_send_message sock_a1 (Some hi_request), []),
             (Store_settled 0 (Inr hi_message),
                [Io_to_emit sock_a1 (Receive_message hi_message)])]"
    by simp
  have e: "Io_to_emit sock_a1 (Receive_message hi_message)
      \<in> set [Io_to_emit sock_a1 (Receive_message hi_message)]"
    by simp
  have m: "emitted_event (Io_to_emit sock_a1 (Receive_message hi_message))
      = Receive_message hi_message"
    by simp
  from r delivery_only_after_store_success [OF r i e m] show ?thesis by (rule conjI)
qed

section \<open>Presence and activity\<close>

text \<open>
  C7. Handling \<open>update_activity\<close> leaves the registry unchanged and emits no \<open>users_online\<close>;
  handling \<open>user_connected\<close> or \<open>disconnect\<close> emits no \<open>activity_updated\<close>.
\<close>

theorem presence_activity_asymmetry:
  assumes "update_activity sock p s = Inr (s', es)"
  shows "userSockets s' = userSockets s
     \<and> filter (\<lambda>e. is_users_online (emitted_event e)) es = []
     \<and> filter (\<lambda>e. is_activity_updated (emitted_event e)) (snd (user_connected csock u cstate)) = []
     \<and> filter (\<lambda>e. is_activity_updated (emitted_event e)) (snd (disconnect dsock dstate)) = []"
proof -
  from assms have a: "userSockets s' = userSockets s"
    and b: "filter (\<lambda>e. is_users_online (emitted_event e)) es = []"
    by (auto simp: update_activity_def Let_def split: option.splits)
  have c: "filter (\<lambda>e. is_activity_updated (emitted_event e)) (snd (user_connected csock u cstate)) = []"
    by (simp add: user_connected_def Let_def)
  have d: "filter (\<lambda>e. is_activity_updated (emitted_event e)) (snd (disconnect dsock dstate)) = []"
    using disconnect_emits [of dsock dstate] by auto
  from a b c d show ?thesis by simp
qed

text \<open>
  The theorem for \<open>alice\<close> setting her activity, \<open>bob\<close> connecting and \<open>bob\<close>'s socket
  closing (a disconnect that does broadcast).
\<close>

theorem presence_activity_asymmetry_witness:
  "update_activity sock_a1 (Some [(''clerkId'', alice), (''activity'', JStr ''Coding'')]) alice_on_a1
     = Inr (alice_on_a1\<lparr>server_state.userActivities := [(alice, JStr ''Coding'')]\<rparr>,
            [Io_emit (Activity_updated [(''clerkId'', alice), (''activity'', JStr ''Coding'')])])
   \<and> (userSockets (alice_on_a1\<lparr>server_state.userActivities := [(alice, JStr ''Coding'')]\<rparr>)
        = userSockets alice_on_a1
      \<and> filter (\<lambda>e. is_users_online (emitted_event e))
           [Io_emit (Activity_updated [(''clerkId'', alice), (''activity'', JStr ''Coding'')])] = []
      \<and> filter (\<lambda>e. is_activity_updated (emitted_event e))
           (snd (user_connected sock_b1 bob alice_on_a1)) = []
      \<and> filter (\<lambda>e. is_activity_updated (emitted_event e)) (snd (disconnect sock_b1 only_bob)) = [])
   \<and> snd (disconnect sock_b1 only_bob)
       = [Io_emit (User_disconnected bob), Io_emit (Users_online [])]"
proof -
  have h: "update_activity sock_a1 (Some [(''clerkId'', alice), (''activity'', JStr ''Coding'')])
      alice_on_a1
     = Inr (alice_on_a1\<lparr>server_state.userActivities := [(alice, JStr ''Coding'')]\<rparr>,
            [Io_emit (Activity_updated [(''clerkId'', alice), (''activity'', JStr ''Coding'')])])"
    by (simp add: update_activity_def Let_def)
  have d: "snd (disconnect sock_b1 only_bob)
       = [Io_emit (User_disconnected bob), Io_emit (Users_online [])]"
    by (simp add: disconnect_def jsmap_keys_def)
  from h presence_activity_asymmetry [OF h, where csock = sock_b1 and u = bob
      and cstate = alice_on_a1 and dsock = sock_b1 and dstate = only_bob] d
  show ?thesis by blast
qed

section \<open>Registry and activity keys\<close>

lemma step_keeps_registry_in_activities:
  assumes "step i s = Inr (s', es)"
    and "set (jsmap_keys (userSockets s)) \<subseteq> set (jsmap_keys (server_state.userActivities s))"
  shows "set (jsmap_keys (userSockets s')) \<subseteq> set (jsmap_keys (server_state.userActivities s'))"
proof (cases i)
  case (On_user_connected sock clerk)
  with assms show ?thesis
    by (auto simp: user_connected_def Let_def set_keys_jsmap_set)
next
  case (On_update_activity sock payload)
  with assms show ?thesis
    by (auto simp: update_activity_def Let_def set_keys_jsmap_set split: option.splits)
next
  case (On_send_message sock data)
  with assms show ?thesis
    by (auto simp: send_message_begin_def split: option.splits)
next
  case (Store_settled k outcome)
  with assms show ?thesis
    by (auto split: option.splits prod.splits)
next
  case (On_disconnect sock)
  with assms obtain u where sc: "disconnect_scan sock (userSockets s) s = (u, s')"
    by (auto simp: disconnect_def split: prod.splits)
  from disconnect_scan_result [OF sc] assms(2) show ?thesis
    by (auto simp: set_keys_jsmap_delete)
qed

lemma run_keeps_registry_in_activities:
  "run ins s0 = Inr (s, tr) \<Longrightarrow>
   set (jsmap_keys (userSockets s0)) \<subseteq> set (jsmap_keys (server_state.userActivities s0)) \<Longrightarrow>
   set (jsmap_keys (userSockets s)) \<subseteq> set (jsmap_keys (server_state.userActivities s))"
proof (induction ins arbitrary: s0 s tr)
  case Nil
  then show ?case by simp
next
  case (Cons j ins)
  from Cons.prems(1) obtain s1 es1 tr1 where
    st: "step j s0 = Inr (s1, es1)" and rn: "run ins s1 = Inr (s, tr1)"
    by (auto split: sum.splits prod.splits)
  from st Cons.prems(2)
  have "set (jsmap_keys (userSockets s1)) \<subseteq> set (jsmap_keys (server_state.userActivities s1))"
    by (rule step_keeps_registry_in_activities)
  with rn show ?case by (rule Cons.IH)
qed

text \<open>
  C10. In every server state reached from the empty initial state by handler invocations
  (\<open>user_connected\<close>, \<open>update_activity\<close>, \<open>send_message\<close> and its resumption, \<open>disconnect\<close>),
  every key of the registry is a key of the activity map.
\<close>

theorem reachable_registry_keys_have_activity:
  assumes "run ins init_state = Inr (s, tr)"
  shows "set (jsmap_keys (userSockets s)) \<subseteq> set (jsmap_keys (server_state.userActivities s))"
proof -
  have "set (jsmap_keys (userSockets init_state))
      \<subseteq> set (jsmap_keys (server_state.userActivities init_state))"
    by (simp add: init_state_def jsmap_keys_def)
  with assms show ?thesis by (rule run_keeps_registry_in_activities)
qed

text \<open>
  The theorem on the run: \<open>alice\<close> and \<open>bob\<close> connect, \<open>bob\<close>'s socket sets an activity for
  \<open>carol\<close>, who never connected, then closes. The registry is left with \<open>alice\<close>, the
  activities with \<open>alice\<close> and \<open>carol\<close>.
\<close>

theorem reachable_registry_keys_have_activity_witness:
  "run [On_user_connected sock_a1 alice, On_user_connected sock_b1 bob,
        On_update_activity sock_b1 (Some [(''clerkId'', carol), (''activity'', JStr ''Away'')]),
        On_disconnect sock_b1] init_state
     = Inr (\<lparr>userSockets = [(alice, sock_a1)],
             userActivities = [(alice, JStr ''Online''), (carol, JStr ''Away'')], pending = []\<rparr>,
            [(On_user_connected sock_a1 alice, [Io_emit (Users_online [alice])]),
             (On_user_connected sock_b1 bob, [Io_emit (Users_online [alice, bob])]),
             (On_update_activity sock_b1
                (Some [(''clerkId'', carol), (''activity'', JStr ''Away'')]),
              [Io_emit (Activity_updated [(''clerkId'', carol), (''activity'', JStr ''Away'')])]),
             (On_disconnect sock_b1,
              [Io_emit (User_disconnected bob), Io_emit (Users_online [alice])])])
   \<and> set (jsmap_keys (userSockets
          \<lparr>userSockets = [(alice, sock_a1)],
           userActivities = [(alice, JStr ''Online''), (carol, JStr ''Away'')], pending = []\<rparr>))
       \<subseteq> set (jsmap_keys (server_state.userActivities
          \<lparr>userSockets = [(alice, sock_a1)],
           userActivities = [(alice, JStr ''Online''), (carol, JStr ''Away'')], pending = []\<rparr>))"
proof -
  have r: "run [On_user_connected sock_a1 alice, On_user_connected sock_b1 bob,
        On_update_activity sock_b1 (Some [(''clerkId'', carol), (''activity'', JStr ''Away'')]),
        On_disconnect sock_b1] init_state
     = Inr (\<lparr>userSockets = [(alice, sock_a1)],
             userActivities = [(alice, JStr ''Online''), (carol, JStr ''Away'')], pending = []\<rparr>,
            [(On_user_connected sock_a1 alice, [Io_emit (Users_online [alice])]),
             (On_user_connected sock_b1 bob, [Io_emit (Users_online [alice, bob])]),
             (On_update_activity sock_b1
                (Some [(''clerkId'', carol), (''activity'', JStr ''Away'')]),
              [Io_emit (Activity_updated [(''clerkId'', carol), (''activity'', JStr ''Away'')])]),
             (On_disconnect sock_b1,
              [Io_emit (User_disconnected bob), Io_emit (Users_online [alice])])])"
    by (simp add: init_state_def user_connected_def update_activity_def disconnect_def
          Let_def jsmap_keys_def)
  from r reachable_registry_keys_have_activity [OF r] show ?thesis by (rule conjI)
qed

lemma step_keeps_maps_wf:
  assumes "step i s = Inr (s', es)"
    and "jsmap_wf (userSockets s) \<and> jsmap_wf (server_state.userActivities s)"
  shows "jsmap_wf (userSockets s') \<and> jsmap_wf (server_state.userActivities s')"
proof (cases i)
  case (On_user_connected sock clerk)
  with assms show ?thesis
    by (auto simp: user_connected_def Let_def intro: jsmap_wf_set)
next
  case (On_update_activity sock payload)
  with assms show ?thesis
    by (auto simp: update_activity_def Let_def split: option.splits intro: jsmap_wf_set)
next
  case (On_send_message sock data)
  with assms show ?thesis
    by (auto simp: send_message_begin_def split: option.splits)
next
  case (Store_settled k outcome)
  with assms show ?thesis
    by (auto split: option.splits prod.splits)
next
  case (On_disconnect sock)
  with assms obtain u where sc: "disconnect_scan sock (userSockets s) s = (u, s')"
    by (auto simp: disconnect_def split: prod.splits)
  from disconnect_scan_result [OF sc] assms(2) show ?thesis
    by (auto intro: jsmap_wf_delete)
qed

lemma run_keeps_maps_wf:
  "run ins s0 = Inr (s, tr) \<Longrightarrow>
   jsmap_wf (userSockets s0) \<and> jsmap_wf (server_state.userActivities s0) \<Longrightarrow>
   jsmap_wf (userSockets s) \<and> jsmap_wf (server_state.userActivities s)"
proof (induction ins arbitrary: s0 s tr)
  case Nil
  then show ?case by simp
next
  case (Cons j ins)
  from Cons.prems(1) obtain s1 es1 tr1 where
    st: "step j s0 = Inr (s1, es1)" and rn: "run ins s1 = Inr (s, tr1)"
    by (auto split: sum.splits prod.splits)
  from st Cons.prems(2)
  have "jsmap_wf (userSockets s1) \<and> jsmap_wf (server_state.userActivities s1)"
    by (rule step_keeps_maps_wf)
  with rn show ?case by (rule Cons.IH)
qed

text \<open>
  Every state the server reaches holds well-formed Maps, so the well-formedness that the
  registration theorem asks of the registry is no restriction.
\<close>

lemma reachable_maps_wf:
  assumes "run ins init_state = Inr (s, tr)"
  shows "jsmap_wf (userSockets s) \<and> jsmap_wf (server_state.userActivities s)"
proof -
  have "jsmap_wf (userSockets init_state) \<and> jsmap_wf (server_state.userActivities init_state)"
    by (simp add: init_state_def jsmap_wf_def jsmap_keys_def)
  with assms show ?thesis by (rule run_keeps_maps_wf)
qed

section \<open>The client mirror\<close>

text \<open>
  Whatever user the server names under \<open>clerkId\<close>, the listener reads \<open>userId\<close>, finds
  \<open>undefined\<close> and writes the activity under that key.
\<close>

lemma mirror_activity_key_is_undefined:
  "chat_store.userActivities
     (client_on localId (Activity_updated [(''clerkId'', u), (''activity'', a)]) c)
   = jsmap_set JUndefined a (chat_store.userActivities c)"
  by (simp add: on_activity_updated_def Let_def)

text \<open>
  C1 does not hold of the code. \<open>alice\<close> is connected and her \<open>update_activity\<close> arrives,
  with the field name the handler reads (\<open>clerkId\<close>) or with the one the claim writes
  (\<open>userId\<close>). The server broadcasts \<open>{clerkId, activity}\<close>; a client mirror that receives it
  ends with the entry \<open>undefined \<mapsto> Coding\<close> and with no entry for \<open>alice\<close>.
\<close>

theorem activity_update_misses_mirror_key:
  "update_activity sock_a1 (Some [(''clerkId'', alice), (''activity'', JStr ''Coding'')]) alice_on_a1
     = Inr (alice_on_a1\<lparr>server_state.userActivities := [(alice, JStr ''Coding'')]\<rparr>,
            [Io_emit (Activity_updated [(''clerkId'', alice), (''activity'', JStr ''Coding'')])])
   \<and> chat_store.userActivities
        (client_on ''bob''
           (Activity_updated [(''clerkId'', alice), (''activity'', JStr ''Coding'')]) initial_store)
       = [(JUndefined, JStr ''Coding'')]
   \<and> jsmap_get (chat_store.userActivities
        (client_on ''bob''
           (Activity_updated [(''clerkId'', alice), (''activity'', JStr ''Coding'')]) initial_store))
        alice = None
   \<and> update_activity sock_a1 (Some [(''userId'', alice), (''activity'', JStr ''Coding'')]) alice_on_a1
     = Inr (alice_on_a1\<lparr>server_state.userActivities :=
                           [(alice, JStr ''Online''), (JUndefined, JStr ''Coding'')]\<rparr>,
            [Io_emit (Activity_updated [(''clerkId'', JUndefined), (''activity'', JStr ''Coding'')])])
   \<and> jsmap_get (chat_store.userActivities
        (client_on ''bob''
           (Activity_updated [(''clerkId'', JUndefined), (''activity'', JStr ''Coding'')])
           initial_store))
        alice = None"
  by (simp add: update_activity_def on_activity_updated_def initial_store_def Let_def)

text \<open>
  C8. The \<open>receive_message\<close> listener appends the message to \<open>messages\<close> exactly when its
  sender and receiver are the two ends of the selected conversation and the local user is
  one of them; otherwise it leaves the store, and so \<open>messages\<close>, unchanged.
\<close>

theorem receive_message_filter:
  "on_receive_message localId m c =
     (if spec_matches_conversation localId (chat_store.selectedUser c) m
      then c\<lparr>messages := messages c @ [m]\<rparr> else c)
   \<and> (messages (on_receive_message localId m c) = messages c @ [m]
        \<longleftrightarrow> spec_matches_conversation localId (chat_store.selectedUser c) m)"
  by (cases "chat_store.selectedUser c")
     (auto simp: on_receive_message_def spec_matches_conversation_def Let_def doubleton_eq_iff)

text \<open>
  The theorem at \<open>bob\<close>'s mirror: with \<open>alice\<close> selected her message to \<open>bob\<close> is appended;
  with nobody selected it is dropped.
\<close>

theorem receive_message_filter_witness:
  "on_receive_message ''bob'' hi_message (setSelectedUser (Some \<lparr>clerkId = ''alice''\<rparr>) initial_store)
     = (setSelectedUser (Some \<lparr>clerkId = ''alice''\<rparr>) initial_store)\<lparr>messages := [hi_message]\<rparr>
   \<and> spec_matches_conversation ''bob'' (Some \<lparr>clerkId = ''alice''\<rparr>) hi_message
   \<and> on_receive_message ''bob'' hi_message initial_store = initial_store
   \<and> \<not> spec_matches_conversation ''bob'' None hi_message"
proof -
  have sel: "chat_store.selectedUser (setSelectedUser (Some \<lparr>clerkId = ''alice''\<rparr>) initial_store)
      = Some \<lparr>clerkId = ''alice''\<rparr>"
    by (simp add: setSelectedUser_def)
  have msgs: "messages (setSelectedUser (Some \<lparr>clerkId = ''alice''\<rparr>) initial_store) = []"
    by (simp add: setSelectedUser_def)
  have none: "chat_store.selectedUser initial_store = None"
    by (simp add: initial_store_def)
  have yes: "spec_matches_conversation ''bob'' (Some \<lparr>clerkId = ''alice''\<rparr>) hi_message"
    by (simp add: spec_matches_conversation_def insert_commute)
  have no: "\<not> spec_matches_conversation ''bob'' None hi_message"
    by (simp add: spec_matches_conversation_def)
  from receive_message_filter [of "''bob''" hi_message
      "setSelectedUser (Some \<lparr>clerkId = ''alice''\<rparr>) initial_store"] sel msgs yes
  have a: "on_receive_message ''bob'' hi_message
      (setSelectedUser (Some \<lparr>clerkId = ''alice''\<rparr>) initial_store)
     = (setSelectedUser (Some \<lparr>clerkId = ''alice''\<rparr>) initial_store)\<lparr>messages := [hi_message]\<rparr>"
    by simp
  from receive_message_filter [of "''bob''" hi_message initial_store] none no
  have b: "on_receive_message ''bob'' hi_message initial_store = initial_store"
    by simp
  from a yes b no show ?thesis by (intro conjI)
qed

lemma js_trim_all_whitespace:
  assumes "\<forall>ch \<in> set t. is_js_whitespace ch"
  shows "js_trim t = []"
proof -
  from assms have d: "dropWhile is_js_whitespace t = []"
    by simp
  show ?thesis unfolding js_trim_def d by simp
qed

text \<open>
  C9. When \<open>content\<close> is empty or holds only white space, \<open>sendMessage\<close> emits nothing (no
  \<open>send_message\<close>) and returns the store as it was.
\<close>

theorem sendMessage_blank_noop:
  assumes "\<forall>ch \<in> set t. is_js_whitespace ch"
  shows "sendMessage receiver sender t c = (c, [])"
  using js_trim_all_whitespace [OF assms] by (simp add: sendMessage_def)

text \<open>
  The theorem for a content of three white space characters (space, tab, U+3000) on a store
  whose socket is there, and for the empty content; a content of two letters is sent.
\<close>

theorem sendMessage_blank_noop_witness:
  "is_js_whitespace 0x0020 \<and> is_js_whitespace 0x0009 \<and> is_js_whitespace 0x3000
   \<and> sendMessage ''bob'' ''alice'' [0x0020, 0x0009, 0x3000] initial_store = (initial_store, [])
   \<and> sendMessage ''bob'' ''alice'' [] initial_store = (initial_store, [])
   \<and> sendMessage ''bob'' ''alice'' [0x0068, 0x0069] initial_store
       = (initial_store, [Emit_send_message ''bob'' ''alice'' [0x0068, 0x0069]])"
proof -
  have ws: "\<forall>ch \<in> set [0x0020, 0x0009, 0x3000]. is_js_whitespace ch"
    by (simp add: is_js_whitespace_def)
  have em: "\<forall>ch \<in> set ([] :: jsstring). is_js_whitespace ch"
    by simp
  have hi: "sendMessage ''bob'' ''alice'' [0x0068, 0x0069] initial_store
       = (initial_store, [Emit_send_message ''bob'' ''alice'' [0x0068, 0x0069]])"
    by (simp add: sendMessage_def js_trim_def is_js_whitespace_def initial_store_def)
  from ws sendMessage_blank_noop [OF ws, of "''bob''" "''alice''" initial_store]
    sendMessage_blank_noop [OF em, of "''bob''" "''alice''" initial_store] hi
  show ?thesis by simp
qed

end
